theory Spec2Isabelle
  imports Main
begin

section \<open>Data model\<close>

text \<open>
  The models of the resource-version service. Only the fields that the functions
  below read are kept; \<open>createdAt\<close> is the date as a number of milliseconds.
  A block version refers to its block, and \<open>block.id\<close> is the identity that the
  comparison matches on.
\<close>

record Block =
  block_id :: string

record BlockVersion =
  bv_id :: string
  block :: Block
  versionNumber :: int

record ResourceVersion =
  rv_id :: string
  resourceId :: string
  version :: string
  createdAt :: int

record ResourceVersionsDiffBlock =
  sourceBlockVersion :: BlockVersion
  targetBlockVersion :: BlockVersion

record ResourceVersionsDiff =
  updatedBlocks :: "ResourceVersionsDiffBlock list"
  createdBlocks :: "BlockVersion list"
  deletedBlocks :: "BlockVersion list"

text \<open>
  \<open>args.where\<close> of \<open>CompareResourceVersionsArgs\<close>: the source version is optional,
  and of the resource only \<open>resource.id\<close> is read, which is the field \<open>resource\<close> here.
\<close>

record CompareResourceVersionsWhere =
  sourceVersion :: "string option"
  targetVersion :: string
  resource :: string

text \<open>
  A JavaScript value that is an object, \<open>null\<close> or \<open>undefined\<close>: Prisma's
  \<open>findFirst\<close> and the early returns of \<open>getPreviousVersion\<close> give \<open>null\<close>,
  \<open>Array.prototype.find\<close> gives \<open>undefined\<close>.
\<close>

datatype 'a js = Null | Undefined | Obj 'a

text \<open>
  What is raised: the \<open>Error\<close> of \<open>compareResourceVersions\<close> with its message, and
  the \<open>TypeError\<close> of the semver library with its message.
\<close>

datatype error = Error string | TypeError string

abbreviation bid :: "BlockVersion \<Rightarrow> string" where
  "bid bv \<equiv> block_id (block bv)"

text \<open>The items of the examples: the id of the block version, of its block, and the version number.\<close>

definition item :: "string \<Rightarrow> string \<Rightarrow> int \<Rightarrow> BlockVersion" where
  "item i b v = \<lparr>bv_id = i, block = \<lparr>block_id = b\<rparr>, versionNumber = v\<rparr>"

text \<open>The rows of the examples: the id, the resource, the version and the creation date.\<close>

definition row :: "string \<Rightarrow> string \<Rightarrow> string \<Rightarrow> int \<Rightarrow> ResourceVersion" where
  "row i r v c = \<lparr>rv_id = i, resourceId = r, version = v, createdAt = c\<rparr>"

section \<open>The two loops of compareResourceVersions\<close>

text \<open>
  The local variables of the comparison: the two arrays that are read and the three
  arrays that the loops push to.
\<close>

record locals =
  sourceBlockVersions :: "BlockVersion list"
  targetBlockVersions :: "BlockVersion list"
  updated :: "ResourceVersionsDiffBlock list"
  deleted :: "BlockVersion list"
  created :: "BlockVersion list"

text \<open>
  The body of the first loop, for one \<open>sourceBlockVersion\<close>: \<open>find\<close> gives the first
  element of \<open>targetBlockVersions\<close> with the same \<open>block.id\<close>, and \<open>push\<close> appends.
\<close>

definition sourceStep :: "BlockVersion \<Rightarrow> locals \<Rightarrow> locals" where
  "sourceStep sbv st =
     (case List.find (\<lambda>blockVersion. bid blockVersion = bid sbv) (targetBlockVersions st) of
        Some tbv \<Rightarrow>
          if versionNumber sbv \<noteq> versionNumber tbv
          then st\<lparr>updated := updated st @
                 [\<lparr>sourceBlockVersion = sbv, targetBlockVersion = tbv\<rparr>]\<rparr>
          else st
      | None \<Rightarrow> st\<lparr>deleted := deleted st @ [sbv]\<rparr>)"

text \<open>The body of the second loop, for one \<open>targetBlockVersion\<close>.\<close>

definition targetStep :: "BlockVersion \<Rightarrow> locals \<Rightarrow> locals" where
  "targetStep tbv st =
     (case List.find (\<lambda>blockVersion. bid blockVersion = bid tbv) (sourceBlockVersions st) of
        Some sbv \<Rightarrow> st
      | None \<Rightarrow> st\<lparr>created := created st @ [tbv]\<rparr>)"

text \<open>
  The three declarations \<open>updated = []\<close>, \<open>deleted = []\<close>, \<open>created = []\<close>, then the
  loop over \<open>sourceBlockVersions\<close>, then the loop over \<open>targetBlockVersions\<close>.
\<close>

definition runLoops :: "locals \<Rightarrow> locals" where
  "runLoops st =
     (let st0 = st\<lparr>updated := [], deleted := [], created := []\<rparr>;
          st1 = fold sourceStep (sourceBlockVersions st0) st0
      in fold targetStep (targetBlockVersions st1) st1)"

text \<open>The object that is returned.\<close>

definition result :: "locals \<Rightarrow> ResourceVersionsDiff" where
  "result st = \<lparr>updatedBlocks = updated st, createdBlocks = created st,
                deletedBlocks = deleted st\<rparr>"

definition diffLoops :: "BlockVersion list \<Rightarrow> BlockVersion list \<Rightarrow> ResourceVersionsDiff" where
  "diffLoops src tgt =
     result (runLoops \<lparr>sourceBlockVersions = src, targetBlockVersions = tgt,
                       updated = [], deleted = [], created = []\<rparr>)"

section \<open>Looking up resource versions\<close>

text \<open>
  The table \<open>resourceVersion\<close> is a list of rows. \<open>findFirst\<close> with a \<open>where\<close> on
  \<open>resourceId\<close> and \<open>version\<close> gives the first such row, or \<open>null\<close>. \<open>findMany\<close>
  with a \<open>where\<close> on \<open>resourceId\<close> gives the rows of the resource, the latest
  \<open>createdAt\<close> first.
\<close>

definition findFirst :: "ResourceVersion list \<Rightarrow> string \<Rightarrow> string \<Rightarrow> ResourceVersion js" where
  "findFirst tbl rid v =
     (case List.find (\<lambda>r. resourceId r = rid \<and> version r = v) tbl of
        Some r \<Rightarrow> Obj r
      | None \<Rightarrow> Null)"

definition findMany :: "ResourceVersion list \<Rightarrow> string \<Rightarrow> ResourceVersion list" where
  "findMany tbl rid = sort_key (\<lambda>r. - createdAt r) (filter (\<lambda>r. resourceId r = rid) tbl)"

text \<open>\<open>Array.prototype.indexOf\<close>: the first index of the element, \<open>-1\<close> when absent.\<close>

fun indexOf :: "'a list \<Rightarrow> 'a \<Rightarrow> int" where
  "indexOf [] x = - 1"
| "indexOf (y # ys) x =
     (if y = x then 0 else (let i = indexOf ys x in if i = - 1 then - 1 else i + 1))"

text \<open>
  \<open>getPreviousVersion\<close>. The function \<open>sort\<close> of the semver library is a parameter:
  it is given the version strings of the resource and either returns them in semver
  order or raises, as the library does with a \<open>TypeError\<close> when it compares a string
  that is not a semver version. What it raises is raised by \<open>getPreviousVersion\<close>.
  The index that is read, \<open>index - 1\<close>, is within \<open>sortedVersions\<close> on the branch
  that reads it.
\<close>

definition getPreviousVersion ::
  "(string list \<Rightarrow> error + string list) \<Rightarrow> ResourceVersion list \<Rightarrow> string \<Rightarrow> string
     \<Rightarrow> error + ResourceVersion js" where
  "getPreviousVersion semver_sort tbl rid v =
     (let versions = findMany tbl rid
      in case semver_sort (map version versions) of
           Inl e \<Rightarrow> Inl e
         | Inr sortedVersions \<Rightarrow>
             (let index = indexOf sortedVersions v
              in if index = - 1 then Inr Null
                 else if index = 0 then Inr Null
                 else (case List.find (\<lambda>r. version r = sortedVersions ! nat (index - 1))
                              versions of
                         Some r \<Rightarrow> Inr (Obj r)
                       | None \<Rightarrow> Inr Undefined)))"

text \<open>
  The source resource version. \<open>if (sourceVersion)\<close> is taken when the string is
  present and not empty; otherwise the previous version of the target is looked up.
\<close>

definition resolveSource ::
  "(string list \<Rightarrow> error + string list) \<Rightarrow> ResourceVersion list
     \<Rightarrow> CompareResourceVersionsWhere \<Rightarrow> error + ResourceVersion js" where
  "resolveSource semver_sort tbl w =
     (case sourceVersion w of
        Some sv \<Rightarrow>
          if sv \<noteq> [] then Inr (findFirst tbl (resource w) sv)
          else getPreviousVersion semver_sort tbl (resource w) (targetVersion w)
      | None \<Rightarrow> getPreviousVersion semver_sort tbl (resource w) (targetVersion w))"

text \<open>
  \<open>sourceResourceVersion ? getBlockVersionsByResourceVersions(id) : []\<close>; the block
  service is a parameter, from the id of a resource version to its block versions.
\<close>

definition sourceBlocks ::
  "(string \<Rightarrow> BlockVersion list) \<Rightarrow> ResourceVersion js \<Rightarrow> BlockVersion list" where
  "sourceBlocks getBlockVersionsByResourceVersions srv =
     (case srv of Obj r \<Rightarrow> getBlockVersionsByResourceVersions (rv_id r) | _ \<Rightarrow> [])"

definition notFoundMessage :: "string \<Rightarrow> string \<Rightarrow> string" where
  "notFoundMessage tv rid =
     ''Resource version with version '' @ tv @ '' not found for resource '' @ rid"

text \<open>
  \<open>compareResourceVersions\<close>. The source is resolved first, so an error of the sort
  is raised before the target version is looked up.
\<close>

definition compareResourceVersions ::
  "(string list \<Rightarrow> error + string list) \<Rightarrow> ResourceVersion list
     \<Rightarrow> (string \<Rightarrow> BlockVersion list)
     \<Rightarrow> CompareResourceVersionsWhere \<Rightarrow> error + ResourceVersionsDiff" where
  "compareResourceVersions semver_sort tbl getBlockVersionsByResourceVersions w =
     (let resourceId = resource w
      in case resolveSource semver_sort tbl w of
           Inl e \<Rightarrow> Inl e
         | Inr sourceResourceVersion \<Rightarrow>
             (let sourceBlockVersions =
                    sourceBlocks getBlockVersionsByResourceVersions sourceResourceVersion;
                  targetResourceVersion = findFirst tbl resourceId (targetVersion w)
              in case targetResourceVersion of
                   Obj t \<Rightarrow>
                     Inr (diffLoops sourceBlockVersions
                            (getBlockVersionsByResourceVersions (rv_id t)))
                 | _ \<Rightarrow> Inl (Error (notFoundMessage (targetVersion w) resourceId))))"

text \<open>
  Used in the proofs only: the pair that one pass of the first loop's body pushes to
  \<open>updated\<close> for the source item \<open>s\<close>, if it pushes one.
\<close>

definition pairOf :: "BlockVersion list \<Rightarrow> BlockVersion \<Rightarrow> ResourceVersionsDiffBlock option" where
  "pairOf tgt s =
     (case List.find (\<lambda>b. bid b = bid s) tgt of
        Some t \<Rightarrow> if versionNumber s \<noteq> versionNumber t
                  then Some \<lparr>sourceBlockVersion = s, targetBlockVersion = t\<rparr> else None
      | None \<Rightarrow> None)"

section \<open>What the loops leave untouched, and what they append\<close>

lemma sourceStep_frame:
  "sourceBlockVersions (sourceStep s st) = sourceBlockVersions st"
  "targetBlockVersions (sourceStep s st) = targetBlockVersions st"
  "created (sourceStep s st) = created st"
  by (simp_all add: sourceStep_def split: option.split)

lemma targetStep_frame:
  "sourceBlockVersions (targetStep t st) = sourceBlockVersions st"
  "targetBlockVersions (targetStep t st) = targetBlockVersions st"
  "updated (targetStep t st) = updated st"
  "deleted (targetStep t st) = deleted st"
  by (simp_all add: targetStep_def split: option.split)

lemma fold_sourceStep_frame:
  "sourceBlockVersions (fold sourceStep xs st) = sourceBlockVersions st"
  "targetBlockVersions (fold sourceStep xs st) = targetBlockVersions st"
  "created (fold sourceStep xs st) = created st"
  by (induction xs arbitrary: st) (simp_all add: sourceStep_frame)

lemma fold_targetStep_frame:
  "sourceBlockVersions (fold targetStep ys st) = sourceBlockVersions st"
  "targetBlockVersions (fold targetStep ys st) = targetBlockVersions st"
  "updated (fold targetStep ys st) = updated st"
  "deleted (fold targetStep ys st) = deleted st"
  by (induction ys arbitrary: st) (simp_all add: targetStep_frame)

lemma find_Some_mem: "List.find P xs = Some x \<Longrightarrow> x \<in> set xs \<and> P x"
  by (induction xs) (auto split: if_splits)

lemma find_bid_None: "(List.find (\<lambda>b. bid b = k) xs = None) = (k \<notin> bid ` set xs)"
  by (auto simp: find_None_iff)

lemma fold_sourceStep_deleted:
  "deleted (fold sourceStep xs st) =
     deleted st @ filter (\<lambda>s. bid s \<notin> bid ` set (targetBlockVersions st)) xs"
proof (induction xs arbitrary: st)
  case Nil
  show ?case by simp
next
  case (Cons x xs)
  have "deleted (sourceStep x st) =
          deleted st @ filter (\<lambda>s. bid s \<notin> bid ` set (targetBlockVersions st)) [x]"
    by (cases "List.find (\<lambda>b. bid b = bid x) (targetBlockVersions st)")
       (simp_all add: sourceStep_def find_bid_None[symmetric])
  then show ?case
    by (simp add: Cons.IH sourceStep_frame)
qed

lemma fold_sourceStep_updated:
  "updated (fold sourceStep xs st) =
     updated st @ List.map_filter (pairOf (targetBlockVersions st)) xs"
proof (induction xs arbitrary: st)
  case Nil
  show ?case by simp
next
  case (Cons x xs)
  have "updated (sourceStep x st) =
          updated st @ List.map_filter (pairOf (targetBlockVersions st)) [x]"
    by (simp add: sourceStep_def pairOf_def split: option.split)
  then show ?case
    by (simp add: Cons.IH sourceStep_frame split: option.split)
qed

lemma fold_targetStep_created:
  "created (fold targetStep ys st) =
     created st @ filter (\<lambda>t. bid t \<notin> bid ` set (sourceBlockVersions st)) ys"
proof (induction ys arbitrary: st)
  case Nil
  show ?case by simp
next
  case (Cons y ys)
  have "created (targetStep y st) =
          created st @ filter (\<lambda>t. bid t \<notin> bid ` set (sourceBlockVersions st)) [y]"
    by (cases "List.find (\<lambda>b. bid b = bid y) (sourceBlockVersions st)")
       (simp_all add: targetStep_def find_bid_None[symmetric])
  then show ?case
    by (simp add: Cons.IH targetStep_frame)
qed

lemma diffLoops_deleted:
  "deletedBlocks (diffLoops src tgt) = filter (\<lambda>s. bid s \<notin> bid ` set tgt) src"
  by (simp add: diffLoops_def result_def runLoops_def Let_def
        fold_targetStep_frame fold_sourceStep_deleted)

lemma diffLoops_updated:
  "updatedBlocks (diffLoops src tgt) = List.map_filter (pairOf tgt) src"
  by (simp add: diffLoops_def result_def runLoops_def Let_def
        fold_targetStep_frame fold_sourceStep_updated)

lemma diffLoops_created:
  "createdBlocks (diffLoops src tgt) = filter (\<lambda>t. bid t \<notin> bid ` set src) tgt"
  by (simp add: diffLoops_def result_def runLoops_def Let_def
        fold_sourceStep_frame fold_targetStep_created)

lemma diffLoops_eq:
  "diffLoops src tgt =
     \<lparr>updatedBlocks = List.map_filter (pairOf tgt) src,
      createdBlocks = filter (\<lambda>t. bid t \<notin> bid ` set src) tgt,
      deletedBlocks = filter (\<lambda>s. bid s \<notin> bid ` set tgt) src\<rparr>"
  using diffLoops_deleted[of src tgt] diffLoops_updated[of src tgt]
        diffLoops_created[of src tgt]
  by (cases "diffLoops src tgt") simp

text \<open>
  A run of the loops leaves the two input arrays as they were, and what it leaves in the
  three output arrays does not depend on what they held before.
\<close>

lemma runLoops_inputs:
  "sourceBlockVersions (runLoops st) = sourceBlockVersions st"
  "targetBlockVersions (runLoops st) = targetBlockVersions st"
  by (simp_all add: runLoops_def Let_def fold_targetStep_frame fold_sourceStep_frame)

lemma runLoops_outputs:
  "updated (runLoops st) = List.map_filter (pairOf (targetBlockVersions st)) (sourceBlockVersions st)"
  "deleted (runLoops st) =
     filter (\<lambda>s. bid s \<notin> bid ` set (targetBlockVersions st)) (sourceBlockVersions st)"
  "created (runLoops st) =
     filter (\<lambda>t. bid t \<notin> bid ` set (sourceBlockVersions st)) (targetBlockVersions st)"
  by (simp_all add: runLoops_def Let_def fold_targetStep_frame fold_sourceStep_frame
        fold_sourceStep_updated fold_sourceStep_deleted fold_targetStep_created)

section \<open>Lookups when the block ids are unique\<close>

lemma pairOf_Some:
  "pairOf tgt s = Some p \<Longrightarrow>
     sourceBlockVersion p = s \<and> List.find (\<lambda>b. bid b = bid s) tgt = Some (targetBlockVersion p)
     \<and> versionNumber s \<noteq> versionNumber (targetBlockVersion p)"
  by (auto simp: pairOf_def split: option.splits if_splits)

lemma find_distinct_key:
  "distinct (map f xs) \<Longrightarrow> t \<in> set xs \<Longrightarrow> List.find (\<lambda>b. f b = f t) xs = Some t"
  by (induction xs) (auto simp: image_iff)

lemma length_filter_distinct_key:
  "distinct (map f xs) \<Longrightarrow>
     length (filter (\<lambda>x. f x = k \<and> P x) xs) = (if \<exists>x\<in>set xs. f x = k \<and> P x then 1 else 0)"
  by (induction xs) (auto simp: image_iff)

lemma length_filter_map_filter:
  "length (filter Q (List.map_filter f xs)) =
     length (filter (\<lambda>x. case f x of Some y \<Rightarrow> Q y | None \<Rightarrow> False) xs)"
  by (induction xs) (auto split: option.splits)

lemma distinct_key_eq:
  "distinct (map f xs) \<Longrightarrow> x \<in> set xs \<Longrightarrow> y \<in> set xs \<Longrightarrow> f x = f y \<Longrightarrow> x = y"
  by (meson distinct_map inj_onD)

lemma pairOf_distinct:
  assumes "distinct (map bid tgt)" "t \<in> set tgt" "bid t = bid s"
  shows "pairOf tgt s =
           (if versionNumber s \<noteq> versionNumber t
            then Some \<lparr>sourceBlockVersion = s, targetBlockVersion = t\<rparr> else None)"
  using find_distinct_key[OF assms(1,2)] assms(3) by (simp add: pairOf_def)

lemma pairOf_unmatched: "bid s \<notin> bid ` set tgt \<Longrightarrow> pairOf tgt s = None"
  by (simp add: pairOf_def find_bid_None[symmetric])

lemma count_source_pairs:
  assumes "distinct (map bid src)" "s \<in> set src"
  shows "length (filter (\<lambda>p. sourceBlockVersion p = s) (List.map_filter (pairOf tgt) src)) =
           (if pairOf tgt s = None then 0 else 1)"
proof -
  have "(case pairOf tgt x of Some p \<Rightarrow> sourceBlockVersion p = s | None \<Rightarrow> False) =
          (id x = s \<and> pairOf tgt x \<noteq> None)" for x
    by (auto dest: pairOf_Some split: option.splits)
  moreover have "distinct (map id src)"
    using assms(1) by (simp add: distinct_map)
  ultimately show ?thesis
    using assms(2) by (auto simp add: length_filter_map_filter length_filter_distinct_key)
qed

lemma count_target_pairs:
  assumes "distinct (map bid src)" "distinct (map bid tgt)" "t \<in> set tgt"
  shows "length (filter (\<lambda>p. targetBlockVersion p = t) (List.map_filter (pairOf tgt) src)) =
           (if \<exists>s\<in>set src. bid s = bid t \<and> versionNumber s \<noteq> versionNumber t then 1 else 0)"
proof -
  have "(case pairOf tgt x of Some p \<Rightarrow> targetBlockVersion p = t | None \<Rightarrow> False) =
          (bid x = bid t \<and> versionNumber x \<noteq> versionNumber t)" for x
  proof (cases "bid x = bid t")
    case True
    then show ?thesis
      using pairOf_distinct[OF assms(2,3), of x] by auto
  next
    case False
    have "targetBlockVersion p \<noteq> t" if "pairOf tgt x = Some p" for p
      using pairOf_Some[OF that] False by (auto dest: find_Some_mem)
    with False show ?thesis
      by (auto split: option.splits)
  qed
  then show ?thesis
    using length_filter_distinct_key[OF assms(1),
            of "bid t" "\<lambda>x. versionNumber x \<noteq> versionNumber t"]
    by (simp add: length_filter_map_filter)
qed

lemma count_list_filter:
  "count_list (filter P xs) x = (if P x then count_list xs x else 0)"
  by (induction xs) auto

lemma count_list_distinct: "distinct xs \<Longrightarrow> x \<in> set xs \<Longrightarrow> count_list xs x = 1"
  by (induction xs) (auto simp: count_list_0_iff)

lemma distinct_of_key: "distinct (map f xs) \<Longrightarrow> distinct xs"
  by (simp add: distinct_map)

lemma map_source_map_filter:
  "map sourceBlockVersion (List.map_filter (pairOf tgt) xs) = filter (\<lambda>s. pairOf tgt s \<noteq> None) xs"
  by (induction xs) (auto dest: pairOf_Some split: option.splits)

lemma filter_by_membership: "filter P xs = filter (\<lambda>x. x \<in> set (filter P xs)) xs"
  by (rule filter_cong) auto

lemma set_map_filter: "set (List.map_filter f xs) = {y. \<exists>x\<in>set xs. f x = Some y}"
  by (induction xs) (auto split: option.splits)

lemma bid_in_image: "x \<in> set xs \<Longrightarrow> bid x = k \<Longrightarrow> k \<in> bid ` set xs"
  by auto

lemma updated_iff:
  "p \<in> set (updatedBlocks (diffLoops src tgt)) \<longleftrightarrow> (\<exists>s\<in>set src. pairOf tgt s = Some p)"
  by (simp add: diffLoops_updated set_map_filter)

lemma map_filter_empty_iff: "List.map_filter f xs = [] \<longleftrightarrow> (\<forall>x\<in>set xs. f x = None)"
  by (induction xs) (auto split: option.splits)

lemma find_bid_Some_ex: "k \<in> bid ` set xs \<Longrightarrow> \<exists>t. List.find (\<lambda>b. bid b = k) xs = Some t"
  using find_bid_None[of k xs] by (cases "List.find (\<lambda>b. bid b = k) xs") auto

lemma pairOf_None_iff:
  "pairOf tgt s = None \<longleftrightarrow>
     (case List.find (\<lambda>b. bid b = bid s) tgt of
        Some t \<Rightarrow> versionNumber s = versionNumber t | None \<Rightarrow> True)"
  by (simp add: pairOf_def split: option.splits)

section \<open>The index of a version\<close>

lemma indexOf_ge: "- 1 \<le> indexOf xs x"
  by (induction xs) (auto simp: Let_def)

lemma indexOf_absent: "indexOf xs x = - 1 \<longleftrightarrow> x \<notin> set xs"
proof (induction xs)
  case Nil
  show ?case by simp
next
  case (Cons y ys)
  show ?case
    using Cons.IH indexOf_ge[of ys x] by (auto simp: Let_def)
qed

lemma indexOf_first: "indexOf xs x = 0 \<longleftrightarrow> xs \<noteq> [] \<and> hd xs = x"
proof (cases xs)
  case Nil
  then show ?thesis by simp
next
  case (Cons y ys)
  then show ?thesis
    using indexOf_ge[of ys x] by (auto simp: Let_def)
qed

section \<open>The first occurrence, and the two outcomes of the comparison\<close>

lemma find_Some_split:
  "List.find P xs = Some x \<Longrightarrow> \<exists>pre post. xs = pre @ x # post \<and> (\<forall>y\<in>set pre. \<not> P y) \<and> P x"
proof (induction xs)
  case Nil
  then show ?case by simp
next
  case (Cons a xs)
  show ?case
  proof (cases "P a")
    case True
    with Cons.prems have "a = x" by simp
    with True have "a # xs = [] @ x # xs \<and> (\<forall>y\<in>set []. \<not> P y) \<and> P x" by simp
    then show ?thesis by blast
  next
    case False
    with Cons.prems have "List.find P xs = Some x" by simp
    from Cons.IH[OF this] obtain pre post
      where "xs = pre @ x # post" "\<forall>y\<in>set pre. \<not> P y" "P x" by blast
    with False have "a # xs = (a # pre) @ x # post \<and> (\<forall>y\<in>set (a # pre). \<not> P y) \<and> P x"
      by simp
    then show ?thesis by blast
  qed
qed

lemma find_first_occurrence:
  "(\<forall>y\<in>set pre. \<not> P y) \<Longrightarrow> P x \<Longrightarrow> List.find P (pre @ x # post) = Some x"
  by (induction pre) simp_all

lemma getPreviousVersion_raises:
  "semver_sort (map version (findMany tbl rid)) = Inl e \<Longrightarrow>
     getPreviousVersion semver_sort tbl rid v = Inl e"
  by (simp add: getPreviousVersion_def Let_def)

lemma getPreviousVersion_returns:
  "semver_sort (map version (findMany tbl rid)) = Inr sortedVersions \<Longrightarrow>
     \<exists>srv. getPreviousVersion semver_sort tbl rid v = Inr srv"
  by (simp add: getPreviousVersion_def Let_def split: option.split)

lemma resolveSource_given:
  "sourceVersion w = Some sv \<Longrightarrow> sv \<noteq> [] \<Longrightarrow>
     resolveSource semver_sort tbl w = Inr (findFirst tbl (resource w) sv)"
  by (simp add: resolveSource_def)

lemma resolveSource_previous:
  "sourceVersion w = None \<or> sourceVersion w = Some [] \<Longrightarrow>
     resolveSource semver_sort tbl w =
       getPreviousVersion semver_sort tbl (resource w) (targetVersion w)"
  by (auto simp: resolveSource_def)

lemma compareResourceVersions_found:
  "resolveSource semver_sort tbl w = Inr srv \<Longrightarrow>
   findFirst tbl (resource w) (targetVersion w) = Obj r \<Longrightarrow>
     compareResourceVersions semver_sort tbl bs w =
       Inr (diffLoops (sourceBlocks bs srv) (bs (rv_id r)))"
  by (simp add: compareResourceVersions_def Let_def)

lemma compareResourceVersions_missing:
  "resolveSource semver_sort tbl w = Inr srv \<Longrightarrow>
   findFirst tbl (resource w) (targetVersion w) = Null \<Longrightarrow>
     compareResourceVersions semver_sort tbl bs w =
       Inl (Error (notFoundMessage (targetVersion w) (resource w)))"
  by (simp add: compareResourceVersions_def Let_def)

text \<open>
  What the sort raises is raised by the comparison, when the source version is not
  given, whether the target version is in the table or not.
\<close>

lemma compareResourceVersions_sort_raises:
  "sourceVersion w = None \<or> sourceVersion w = Some [] \<Longrightarrow>
   semver_sort (map version (findMany tbl (resource w))) = Inl e \<Longrightarrow>
     compareResourceVersions semver_sort tbl bs w = Inl e"
  by (simp add: compareResourceVersions_def Let_def resolveSource_previous
        getPreviousVersion_raises)

lemma findFirst_cases:
  "(\<exists>r\<in>set tbl. resourceId r = rid \<and> version r = v) \<Longrightarrow> \<exists>r. findFirst tbl rid v = Obj r"
  "\<not> (\<exists>r\<in>set tbl. resourceId r = rid \<and> version r = v) \<Longrightarrow> findFirst tbl rid v = Null"
proof -
  assume "\<exists>r\<in>set tbl. resourceId r = rid \<and> version r = v"
  then have "List.find (\<lambda>r. resourceId r = rid \<and> version r = v) tbl \<noteq> None"
    by (simp add: find_None_iff) blast
  then show "\<exists>r. findFirst tbl rid v = Obj r"
    by (auto simp: findFirst_def)
next
  assume "\<not> (\<exists>r\<in>set tbl. resourceId r = rid \<and> version r = v)"
  then have "List.find (\<lambda>r. resourceId r = rid \<and> version r = v) tbl = None"
    by (simp add: find_None_iff)
  then show "findFirst tbl rid v = Null"
    by (simp add: findFirst_def)
qed

section \<open>The partition of the inputs\<close>

text \<open>
  C1. When the block ids are unique within the source collection and within the target
  collection, every source item is in exactly one of three cases: it is in
  \<open>deletedBlocks\<close>, once, and is the source half of no pair (no target item has its
  block id); or it is the source half of exactly one pair of \<open>updatedBlocks\<close> and is
  not deleted (a target item has its block id and another version number); or it is in
  neither (a target item has its block id and its version number). The same holds for
  every target item, with \<open>createdBlocks\<close> and the target halves of the pairs.
\<close>

theorem partition_source_target:
  assumes src: "distinct (map bid src)" and tgt: "distinct (map bid tgt)"
    and d: "d = diffLoops src tgt"
  shows "(\<forall>s\<in>set src.
            (count_list (deletedBlocks d) s = 1
               \<and> length (filter (\<lambda>p. sourceBlockVersion p = s) (updatedBlocks d)) = 0
               \<and> bid s \<notin> bid ` set tgt)
          \<or> (count_list (deletedBlocks d) s = 0
               \<and> length (filter (\<lambda>p. sourceBlockVersion p = s) (updatedBlocks d)) = 1
               \<and> (\<exists>t\<in>set tgt. bid t = bid s \<and> versionNumber t \<noteq> versionNumber s))
          \<or> (count_list (deletedBlocks d) s = 0
               \<and> length (filter (\<lambda>p. sourceBlockVersion p = s) (updatedBlocks d)) = 0
               \<and> (\<exists>t\<in>set tgt. bid t = bid s \<and> versionNumber t = versionNumber s)))
       \<and> (\<forall>t\<in>set tgt.
            (count_list (createdBlocks d) t = 1
               \<and> length (filter (\<lambda>p. targetBlockVersion p = t) (updatedBlocks d)) = 0
               \<and> bid t \<notin> bid ` set src)
          \<or> (count_list (createdBlocks d) t = 0
               \<and> length (filter (\<lambda>p. targetBlockVersion p = t) (updatedBlocks d)) = 1
               \<and> (\<exists>s\<in>set src. bid s = bid t \<and> versionNumber s \<noteq> versionNumber t))
          \<or> (count_list (createdBlocks d) t = 0
               \<and> length (filter (\<lambda>p. targetBlockVersion p = t) (updatedBlocks d)) = 0
               \<and> (\<exists>s\<in>set src. bid s = bid t \<and> versionNumber s = versionNumber t)))"
proof (intro conjI ballI)
  fix s assume s: "s \<in> set src"
  have del: "count_list (deletedBlocks d) s = (if bid s \<notin> bid ` set tgt then 1 else 0)"
    using count_list_distinct[OF distinct_of_key[OF src] s]
    by (simp add: d diffLoops_deleted count_list_filter)
  have upd: "length (filter (\<lambda>p. sourceBlockVersion p = s) (updatedBlocks d)) =
               (if pairOf tgt s = None then 0 else 1)"
    by (simp only: d diffLoops_updated count_source_pairs[OF src s])
  show "(count_list (deletedBlocks d) s = 1
               \<and> length (filter (\<lambda>p. sourceBlockVersion p = s) (updatedBlocks d)) = 0
               \<and> bid s \<notin> bid ` set tgt)
          \<or> (count_list (deletedBlocks d) s = 0
               \<and> length (filter (\<lambda>p. sourceBlockVersion p = s) (updatedBlocks d)) = 1
               \<and> (\<exists>t\<in>set tgt. bid t = bid s \<and> versionNumber t \<noteq> versionNumber s))
          \<or> (count_list (deletedBlocks d) s = 0
               \<and> length (filter (\<lambda>p. sourceBlockVersion p = s) (updatedBlocks d)) = 0
               \<and> (\<exists>t\<in>set tgt. bid t = bid s \<and> versionNumber t = versionNumber s))"
  proof (cases "bid s \<in> bid ` set tgt")
    case False
    then show ?thesis
      by (simp add: del upd pairOf_unmatched)
  next
    case True
    note mem = True
    from mem obtain t where t: "t \<in> set tgt" "bid t = bid s"
      by auto
    show ?thesis
    proof (cases "versionNumber s = versionNumber t")
      case True
      have "pairOf tgt s = None"
        using pairOf_distinct[OF tgt t] True by simp
      moreover have "\<exists>t\<in>set tgt. bid t = bid s \<and> versionNumber t = versionNumber s"
        using t True by auto
      moreover note mem
      ultimately show ?thesis
        by (simp add: del upd)
    next
      case False
      have "pairOf tgt s \<noteq> None"
        using pairOf_distinct[OF tgt t] False by simp
      moreover have "\<exists>t\<in>set tgt. bid t = bid s \<and> versionNumber t \<noteq> versionNumber s"
        using t False by auto
      moreover note mem
      ultimately show ?thesis
        by (auto simp add: del upd)
    qed
  qed
next
  fix t assume t: "t \<in> set tgt"
  have cre: "count_list (createdBlocks d) t = (if bid t \<notin> bid ` set src then 1 else 0)"
    using count_list_distinct[OF distinct_of_key[OF tgt] t]
    by (simp add: d diffLoops_created count_list_filter)
  have upd: "length (filter (\<lambda>p. targetBlockVersion p = t) (updatedBlocks d)) =
          (if \<exists>s\<in>set src. bid s = bid t \<and> versionNumber s \<noteq> versionNumber t then 1 else 0)"
    by (simp only: d diffLoops_updated count_target_pairs[OF src tgt t])
  show "(count_list (createdBlocks d) t = 1
               \<and> length (filter (\<lambda>p. targetBlockVersion p = t) (updatedBlocks d)) = 0
               \<and> bid t \<notin> bid ` set src)
          \<or> (count_list (createdBlocks d) t = 0
               \<and> length (filter (\<lambda>p. targetBlockVersion p = t) (updatedBlocks d)) = 1
               \<and> (\<exists>s\<in>set src. bid s = bid t \<and> versionNumber s \<noteq> versionNumber t))
          \<or> (count_list (createdBlocks d) t = 0
               \<and> length (filter (\<lambda>p. targetBlockVersion p = t) (updatedBlocks d)) = 0
               \<and> (\<exists>s\<in>set src. bid s = bid t \<and> versionNumber s = versionNumber t))"
  proof (cases "bid t \<in> bid ` set src")
    case False
    then have "\<not> (\<exists>s\<in>set src. bid s = bid t \<and> versionNumber s \<noteq> versionNumber t)"
      by (auto simp: image_iff)
    with False show ?thesis
      by (simp add: cre upd)
  next
    case True
    then obtain s where s: "s \<in> set src" "bid s = bid t"
      by auto
    show ?thesis
    proof (cases "\<exists>s\<in>set src. bid s = bid t \<and> versionNumber s \<noteq> versionNumber t")
      case True
      with \<open>bid t \<in> bid ` set src\<close> show ?thesis
        by (simp add: cre upd)
    next
      case False
      then have "\<exists>s\<in>set src. bid s = bid t \<and> versionNumber s = versionNumber t"
        using s by auto
      with False \<open>bid t \<in> bid ` set src\<close> show ?thesis
        by (simp add: cre upd)
    qed
  qed
qed


theorem partition_source_target_witness:
  "distinct (map bid [item ''1'' ''a'' 1, item ''2'' ''b'' 1])
   \<and> distinct (map bid [item ''3'' ''a'' 2, item ''4'' ''c'' 1])
   \<and> count_list (deletedBlocks (diffLoops [item ''1'' ''a'' 1, item ''2'' ''b'' 1]
          [item ''3'' ''a'' 2, item ''4'' ''c'' 1])) (item ''2'' ''b'' 1) = 1
   \<and> length (filter (\<lambda>p. sourceBlockVersion p = item ''1'' ''a'' 1)
          (updatedBlocks (diffLoops [item ''1'' ''a'' 1, item ''2'' ''b'' 1]
             [item ''3'' ''a'' 2, item ''4'' ''c'' 1]))) = 1
   \<and> count_list (createdBlocks (diffLoops [item ''1'' ''a'' 1, item ''2'' ''b'' 1]
          [item ''3'' ''a'' 2, item ''4'' ''c'' 1])) (item ''4'' ''c'' 1) = 1"
  using partition_source_target [of "[item ''1'' ''a'' 1, item ''2'' ''b'' 1]"
          "[item ''3'' ''a'' 2, item ''4'' ''c'' 1]", OF _ _ refl]
  by (simp add: item_def)

section \<open>Items that share a block id\<close>

text \<open>
  C2. For every source item and target item with the same block id, in collections
  whose block ids are unique: if the version numbers differ, the pair of the two is in
  \<open>updatedBlocks\<close>; if they are equal, the source item is not in \<open>deletedBlocks\<close>, the
  target item is not in \<open>createdBlocks\<close>, the pair is not in \<open>updatedBlocks\<close>, and
  neither item is a half of any pair. Each part is stated with the uniqueness that it
  uses: the second needs none, the first and the source half need unique block ids in
  the target collection, the target half needs them in the source collection.
\<close>

theorem shared_id_pair:
  assumes s: "s \<in> set src" and t: "t \<in> set tgt" and st: "bid s = bid t"
    and d: "d = diffLoops src tgt"
  shows "(distinct (map bid tgt) \<longrightarrow> versionNumber s \<noteq> versionNumber t \<longrightarrow>
            \<lparr>sourceBlockVersion = s, targetBlockVersion = t\<rparr> \<in> set (updatedBlocks d))
       \<and> (versionNumber s = versionNumber t \<longrightarrow>
            s \<notin> set (deletedBlocks d) \<and> t \<notin> set (createdBlocks d)
            \<and> \<lparr>sourceBlockVersion = s, targetBlockVersion = t\<rparr> \<notin> set (updatedBlocks d))
       \<and> (distinct (map bid tgt) \<longrightarrow> versionNumber s = versionNumber t \<longrightarrow>
            s \<notin> sourceBlockVersion ` set (updatedBlocks d))
       \<and> (distinct (map bid src) \<longrightarrow> versionNumber s = versionNumber t \<longrightarrow>
            t \<notin> targetBlockVersion ` set (updatedBlocks d))"
proof (intro conjI impI)
  assume tgt: "distinct (map bid tgt)" and ne: "versionNumber s \<noteq> versionNumber t"
  have "pairOf tgt s = Some \<lparr>sourceBlockVersion = s, targetBlockVersion = t\<rparr>"
    using pairOf_distinct[OF tgt t] st ne by simp
  with s show "\<lparr>sourceBlockVersion = s, targetBlockVersion = t\<rparr> \<in> set (updatedBlocks d)"
    by (auto simp: d updated_iff)
next
  assume eq: "versionNumber s = versionNumber t"
  show "s \<notin> set (deletedBlocks d)"
    using bid_in_image[OF t st[symmetric]] by (simp add: d diffLoops_deleted)
next
  assume eq: "versionNumber s = versionNumber t"
  show "t \<notin> set (createdBlocks d)"
    using bid_in_image[OF s st] by (simp add: d diffLoops_created)
next
  assume eq: "versionNumber s = versionNumber t"
  show "\<lparr>sourceBlockVersion = s, targetBlockVersion = t\<rparr> \<notin> set (updatedBlocks d)"
  proof
    assume "\<lparr>sourceBlockVersion = s, targetBlockVersion = t\<rparr> \<in> set (updatedBlocks d)"
    then obtain s' where "pairOf tgt s' = Some \<lparr>sourceBlockVersion = s, targetBlockVersion = t\<rparr>"
      by (auto simp: d updated_iff)
    from pairOf_Some[OF this] eq show False
      by simp
  qed
next
  assume tgt: "distinct (map bid tgt)" and eq: "versionNumber s = versionNumber t"
  have none: "pairOf tgt s = None"
    using pairOf_distinct[OF tgt t] st eq by simp
  show "s \<notin> sourceBlockVersion ` set (updatedBlocks d)"
  proof
    assume "s \<in> sourceBlockVersion ` set (updatedBlocks d)"
    then obtain q s' where q: "pairOf tgt s' = Some q" "sourceBlockVersion q = s"
      by (auto simp: d updated_iff)
    from pairOf_Some[OF q(1)] q(2) have "s' = s"
      by simp
    with none q(1) show False
      by simp
  qed
next
  assume src: "distinct (map bid src)" and eq: "versionNumber s = versionNumber t"
  show "t \<notin> targetBlockVersion ` set (updatedBlocks d)"
  proof
    assume "t \<in> targetBlockVersion ` set (updatedBlocks d)"
    then obtain q s' where q: "s' \<in> set src" "pairOf tgt s' = Some q" "targetBlockVersion q = t"
      by (auto simp: d updated_iff)
    from pairOf_Some[OF q(2)] q(3)
    have f: "List.find (\<lambda>b. bid b = bid s') tgt = Some t" "versionNumber s' \<noteq> versionNumber t"
      by auto
    from find_Some_mem[OF f(1)] have "bid s' = bid s"
      using st by simp
    then have "s' = s"
      using distinct_key_eq[OF src q(1) s] by simp
    with f(2) eq show False
      by simp
  qed
qed

theorem shared_id_pair_witness:
  "item ''1'' ''a'' 1 \<in> set [item ''1'' ''a'' 1, item ''2'' ''b'' 7]
   \<and> item ''4'' ''a'' 2 \<in> set [item ''4'' ''a'' 2, item ''5'' ''b'' 7]
   \<and> bid (item ''1'' ''a'' 1) = bid (item ''4'' ''a'' 2)
   \<and> distinct (map bid [item ''4'' ''a'' 2, item ''5'' ''b'' 7])
   \<and> versionNumber (item ''1'' ''a'' 1) \<noteq> versionNumber (item ''4'' ''a'' 2)
   \<and> \<lparr>sourceBlockVersion = item ''1'' ''a'' 1, targetBlockVersion = item ''4'' ''a'' 2\<rparr>
        \<in> set (updatedBlocks (diffLoops [item ''1'' ''a'' 1, item ''2'' ''b'' 7]
                                   [item ''4'' ''a'' 2, item ''5'' ''b'' 7]))
   \<and> item ''2'' ''b'' 7 \<in> set [item ''1'' ''a'' 1, item ''2'' ''b'' 7]
   \<and> item ''5'' ''b'' 7 \<in> set [item ''4'' ''a'' 2, item ''5'' ''b'' 7]
   \<and> bid (item ''2'' ''b'' 7) = bid (item ''5'' ''b'' 7)
   \<and> versionNumber (item ''2'' ''b'' 7) = versionNumber (item ''5'' ''b'' 7)
   \<and> distinct (map bid [item ''1'' ''a'' 1, item ''2'' ''b'' 7])
   \<and> item ''2'' ''b'' 7 \<notin> set (deletedBlocks (diffLoops [item ''1'' ''a'' 1, item ''2'' ''b'' 7]
                                   [item ''4'' ''a'' 2, item ''5'' ''b'' 7]))
   \<and> item ''5'' ''b'' 7 \<notin> set (createdBlocks (diffLoops [item ''1'' ''a'' 1, item ''2'' ''b'' 7]
                                   [item ''4'' ''a'' 2, item ''5'' ''b'' 7]))
   \<and> \<lparr>sourceBlockVersion = item ''2'' ''b'' 7, targetBlockVersion = item ''5'' ''b'' 7\<rparr>
        \<notin> set (updatedBlocks (diffLoops [item ''1'' ''a'' 1, item ''2'' ''b'' 7]
                                   [item ''4'' ''a'' 2, item ''5'' ''b'' 7]))
   \<and> item ''2'' ''b'' 7 \<notin> sourceBlockVersion ` set (updatedBlocks
          (diffLoops [item ''1'' ''a'' 1, item ''2'' ''b'' 7]
                     [item ''4'' ''a'' 2, item ''5'' ''b'' 7]))
   \<and> item ''5'' ''b'' 7 \<notin> targetBlockVersion ` set (updatedBlocks
          (diffLoops [item ''1'' ''a'' 1, item ''2'' ''b'' 7]
                     [item ''4'' ''a'' 2, item ''5'' ''b'' 7]))"
  using shared_id_pair [of "item ''1'' ''a'' 1" "[item ''1'' ''a'' 1, item ''2'' ''b'' 7]"
          "item ''4'' ''a'' 2" "[item ''4'' ''a'' 2, item ''5'' ''b'' 7]", OF _ _ _ refl]
        shared_id_pair [of "item ''2'' ''b'' 7" "[item ''1'' ''a'' 1, item ''2'' ''b'' 7]"
          "item ''5'' ''b'' 7" "[item ''4'' ''a'' 2, item ''5'' ''b'' 7]", OF _ _ _ refl]
  by (simp add: item_def)

section \<open>A collection compared with itself\<close>

text \<open>
  C3. A collection whose block ids are unique, compared with itself, gives three empty
  outputs. For any collection compared with itself, \<open>createdBlocks\<close> and
  \<open>deletedBlocks\<close> are empty, and \<open>updatedBlocks\<close> is empty exactly when the items that
  share a block id share their version number.
\<close>

theorem self_diff:
  "(distinct (map bid X) \<longrightarrow>
      diffLoops X X = \<lparr>updatedBlocks = [], createdBlocks = [], deletedBlocks = []\<rparr>)
   \<and> createdBlocks (diffLoops X X) = [] \<and> deletedBlocks (diffLoops X X) = []
   \<and> (updatedBlocks (diffLoops X X) = [] \<longleftrightarrow>
        (\<forall>s\<in>set X. \<forall>t\<in>set X. bid s = bid t \<longrightarrow> versionNumber s = versionNumber t))"
proof -
  have c: "createdBlocks (diffLoops X X) = []"
    by (simp add: diffLoops_created filter_empty_conv)
  have e: "deletedBlocks (diffLoops X X) = []"
    by (simp add: diffLoops_deleted filter_empty_conv)
  have u: "updatedBlocks (diffLoops X X) = [] \<longleftrightarrow>
        (\<forall>s\<in>set X. \<forall>t\<in>set X. bid s = bid t \<longrightarrow> versionNumber s = versionNumber t)"
  proof
    assume "updatedBlocks (diffLoops X X) = []"
    then have none: "pairOf X s = None" if "s \<in> set X" for s
      using that by (simp add: diffLoops_updated map_filter_empty_iff)
    show "\<forall>s\<in>set X. \<forall>t\<in>set X. bid s = bid t \<longrightarrow> versionNumber s = versionNumber t"
    proof (intro ballI impI)
      fix s t assume s: "s \<in> set X" and t: "t \<in> set X" and st: "bid s = bid t"
      obtain f where f: "List.find (\<lambda>b. bid b = bid s) X = Some f"
        using find_bid_Some_ex[OF bid_in_image[OF s refl]] by auto
      have "versionNumber s = versionNumber f"
        using none[OF s] f by (simp add: pairOf_None_iff)
      moreover have "versionNumber t = versionNumber f"
        using none[OF t] f st by (simp add: pairOf_None_iff)
      ultimately show "versionNumber s = versionNumber t"
        by simp
    qed
  next
    assume same: "\<forall>s\<in>set X. \<forall>t\<in>set X. bid s = bid t \<longrightarrow> versionNumber s = versionNumber t"
    have "pairOf X s = None" if s: "s \<in> set X" for s
    proof (cases "List.find (\<lambda>b. bid b = bid s) X")
      case None
      then show ?thesis by (simp add: pairOf_def)
    next
      case (Some f)
      from find_Some_mem[OF Some] have f: "f \<in> set X" "bid f = bid s"
        by simp_all
      have "versionNumber s = versionNumber f"
        by (rule same[rule_format, OF s f(1) f(2)[symmetric]])
      with Some show ?thesis by (simp add: pairOf_def)
    qed
    then show "updatedBlocks (diffLoops X X) = []"
      by (simp add: diffLoops_updated map_filter_empty_iff)
  qed
  have "updatedBlocks (diffLoops X X) = []" if "distinct (map bid X)"
  proof -
    have "versionNumber s = versionNumber t"
      if "s \<in> set X" "t \<in> set X" "bid s = bid t" for s t
      using distinct_key_eq[OF \<open>distinct (map bid X)\<close> that] by simp
    then show ?thesis
      unfolding u by blast
  qed
  with c e have dd: "distinct (map bid X) \<longrightarrow>
        diffLoops X X = \<lparr>updatedBlocks = [], createdBlocks = [], deletedBlocks = []\<rparr>"
    by (cases "diffLoops X X") simp
  show ?thesis
    by (intro conjI dd c e u)
qed

theorem self_diff_witness:
  "distinct (map bid [item ''1'' ''a'' 1, item ''2'' ''b'' 1])
   \<and> diffLoops [item ''1'' ''a'' 1, item ''2'' ''b'' 1] [item ''1'' ''a'' 1, item ''2'' ''b'' 1] =
       \<lparr>updatedBlocks = [], createdBlocks = [], deletedBlocks = []\<rparr>"
  using self_diff [of "[item ''1'' ''a'' 1, item ''2'' ''b'' 1]"]
  by (simp add: item_def)

section \<open>The order of the outputs\<close>

text \<open>
  C6. Each output keeps the iteration order of the collection it is taken from, and
  nothing reorders it: \<open>deletedBlocks\<close> is the source collection restricted to the
  deleted items, the source halves of \<open>updatedBlocks\<close> are the source collection
  restricted to the updated items, and \<open>createdBlocks\<close> is the target collection
  restricted to the created items.
\<close>

theorem output_order:
  "deletedBlocks (diffLoops src tgt) =
     filter (\<lambda>s. s \<in> set (deletedBlocks (diffLoops src tgt))) src \<and>
   map sourceBlockVersion (updatedBlocks (diffLoops src tgt)) =
     filter (\<lambda>s. s \<in> sourceBlockVersion ` set (updatedBlocks (diffLoops src tgt))) src \<and>
   createdBlocks (diffLoops src tgt) =
     filter (\<lambda>t. t \<in> set (createdBlocks (diffLoops src tgt))) tgt"
proof (intro conjI)
  show "deletedBlocks (diffLoops src tgt) =
     filter (\<lambda>s. s \<in> set (deletedBlocks (diffLoops src tgt))) src"
    unfolding diffLoops_deleted by (rule filter_by_membership)
  show "createdBlocks (diffLoops src tgt) =
     filter (\<lambda>t. t \<in> set (createdBlocks (diffLoops src tgt))) tgt"
    unfolding diffLoops_created by (rule filter_by_membership)
  have "sourceBlockVersion ` set (updatedBlocks (diffLoops src tgt)) =
          set (filter (\<lambda>s. pairOf tgt s \<noteq> None) src)"
    by (simp only: diffLoops_updated set_map[symmetric] map_source_map_filter)
  then show "map sourceBlockVersion (updatedBlocks (diffLoops src tgt)) =
     filter (\<lambda>s. s \<in> sourceBlockVersion ` set (updatedBlocks (diffLoops src tgt))) src"
    by (simp only: diffLoops_updated map_source_map_filter filter_by_membership[symmetric])
qed

section \<open>Empty inputs\<close>

text \<open>
  C4. With an empty source, the created blocks are the target collection, in its order,
  and there are no updated and no deleted blocks.
\<close>

theorem empty_source_all_created:
  "diffLoops [] tgt = \<lparr>updatedBlocks = [], createdBlocks = tgt, deletedBlocks = []\<rparr>"
  by (simp add: diffLoops_eq)

text \<open>
  C5. With an empty target, the deleted blocks are the source collection, in its order,
  and there are no created and no updated blocks.
\<close>

theorem empty_target_all_deleted:
  "diffLoops src [] = \<lparr>updatedBlocks = [], createdBlocks = [], deletedBlocks = src\<rparr>"
proof -
  have "List.map_filter (pairOf []) src = []"
    by (induction src) (simp_all add: pairOf_def)
  then show ?thesis
    by (simp add: diffLoops_eq)
qed

section \<open>The previous version\<close>

text \<open>
  C8. When the sort has returned \<open>sortedVersions\<close>, the sorted versions of the
  resource: \<open>getPreviousVersion\<close> returns \<open>null\<close> when the requested version is not
  among them, and returns the same \<open>null\<close> when it is the first of them; these are the
  only two cases in which it returns \<open>null\<close>, and nothing in the result tells them
  apart.
\<close>

theorem getPreviousVersion_null:
  assumes "semver_sort (map version (findMany tbl rid)) = Inr sortedVersions"
  shows "(v \<notin> set sortedVersions \<longrightarrow> getPreviousVersion semver_sort tbl rid v = Inr Null)
       \<and> (sortedVersions \<noteq> [] \<and> hd sortedVersions = v \<longrightarrow>
            getPreviousVersion semver_sort tbl rid v = Inr Null)
       \<and> (getPreviousVersion semver_sort tbl rid v = Inr Null \<longrightarrow>
            v \<notin> set sortedVersions \<or> (sortedVersions \<noteq> [] \<and> hd sortedVersions = v))"
proof -
  have a: "indexOf sortedVersions v = - 1 \<longleftrightarrow> v \<notin> set sortedVersions"
    by (rule indexOf_absent)
  have b: "indexOf sortedVersions v = 0 \<longleftrightarrow> sortedVersions \<noteq> [] \<and> hd sortedVersions = v"
    by (rule indexOf_first)
  have g: "getPreviousVersion semver_sort tbl rid v =
     (if indexOf sortedVersions v = - 1 then Inr Null
      else if indexOf sortedVersions v = 0 then Inr Null
      else (case List.find (\<lambda>r. version r = sortedVersions ! nat (indexOf sortedVersions v - 1))
                   (findMany tbl rid) of
              Some r \<Rightarrow> Inr (Obj r) | None \<Rightarrow> Inr Undefined))"
    by (simp add: getPreviousVersion_def Let_def assms)
  show ?thesis
    unfolding g using a b by (auto split: option.splits)
qed

theorem getPreviousVersion_null_witness:
  "(\<lambda>xs. Inr xs) (map version
      (findMany [row ''rv1'' ''res'' ''2.0.0'' 1, row ''rv2'' ''res'' ''1.0.1'' 2] ''res''))
     = (Inr [''1.0.1'', ''2.0.0''] :: error + string list)
   \<and> ''9.9.9'' \<notin> set [''1.0.1'', ''2.0.0'']
   \<and> getPreviousVersion (\<lambda>xs. Inr xs)
        [row ''rv1'' ''res'' ''2.0.0'' 1, row ''rv2'' ''res'' ''1.0.1'' 2] ''res'' ''9.9.9''
        = Inr Null
   \<and> hd [''1.0.1'', ''2.0.0''] = ''1.0.1''
   \<and> getPreviousVersion (\<lambda>xs. Inr xs)
        [row ''rv1'' ''res'' ''2.0.0'' 1, row ''rv2'' ''res'' ''1.0.1'' 2] ''res'' ''1.0.1''
        = Inr Null"
  using getPreviousVersion_null [where semver_sort = "\<lambda>xs. Inr xs" and v = "''9.9.9''"
          and sortedVersions = "[''1.0.1'', ''2.0.0'']" and rid = "''res''"
          and tbl = "[row ''rv1'' ''res'' ''2.0.0'' 1, row ''rv2'' ''res'' ''1.0.1'' 2]"]
        getPreviousVersion_null [where semver_sort = "\<lambda>xs. Inr xs" and v = "''1.0.1''"
          and sortedVersions = "[''1.0.1'', ''2.0.0'']" and rid = "''res''"
          and tbl = "[row ''rv1'' ''res'' ''2.0.0'' 1, row ''rv2'' ''res'' ''1.0.1'' 2]"]
  by (simp add: findMany_def row_def)

section \<open>Duplicate block ids\<close>

text \<open>
  C9. Whatever the two collections are, duplicates of a block id included, the loops
  raise nothing: once the source is resolved and the target resource version is found,
  the comparison returns the result of the loops. Each lookup matches the first item with the block id: the target
  half of every pair of \<open>updatedBlocks\<close> is the first target item with the block id of
  the source half; and a source item whose block id occurs in the target collection,
  first at the item \<open>t\<close>, is not deleted, is paired with \<open>t\<close> exactly when the version
  numbers differ, and is paired with no other target item.
\<close>

theorem duplicates_first_match:
  assumes d: "d = diffLoops src tgt"
  shows "(\<forall>p\<in>set (updatedBlocks d). \<exists>pre post.
            tgt = pre @ targetBlockVersion p # post
            \<and> bid (sourceBlockVersion p) \<notin> bid ` set pre
            \<and> bid (targetBlockVersion p) = bid (sourceBlockVersion p))
       \<and> (\<forall>s\<in>set src. \<forall>pre t post.
            tgt = pre @ t # post \<and> bid s \<notin> bid ` set pre \<and> bid t = bid s \<longrightarrow>
              s \<notin> set (deletedBlocks d)
              \<and> (\<lparr>sourceBlockVersion = s, targetBlockVersion = t\<rparr> \<in> set (updatedBlocks d)
                   \<longleftrightarrow> versionNumber s \<noteq> versionNumber t)
              \<and> (\<forall>t'. \<lparr>sourceBlockVersion = s, targetBlockVersion = t'\<rparr> \<in> set (updatedBlocks d)
                   \<longrightarrow> t' = t))
       \<and> (resolveSource semver_sort tbl w = Inr srv \<and> sourceBlocks bs srv = src
            \<and> findFirst tbl (resource w) (targetVersion w) = Obj r \<and> bs (rv_id r) = tgt \<longrightarrow>
              compareResourceVersions semver_sort tbl bs w = Inr d)"
proof (intro conjI ballI allI impI)
  fix p assume "p \<in> set (updatedBlocks d)"
  then obtain s where "pairOf tgt s = Some p"
    by (auto simp: d updated_iff)
  from pairOf_Some[OF this]
  have f: "List.find (\<lambda>b. bid b = bid (sourceBlockVersion p)) tgt = Some (targetBlockVersion p)"
    by simp
  from find_Some_split[OF f] obtain pre post where
    "tgt = pre @ targetBlockVersion p # post"
    "\<forall>y\<in>set pre. bid y \<noteq> bid (sourceBlockVersion p)"
    "bid (targetBlockVersion p) = bid (sourceBlockVersion p)"
    by blast
  then have "tgt = pre @ targetBlockVersion p # post
            \<and> bid (sourceBlockVersion p) \<notin> bid ` set pre
            \<and> bid (targetBlockVersion p) = bid (sourceBlockVersion p)"
    by (auto simp: image_iff)
  then show "\<exists>pre post. tgt = pre @ targetBlockVersion p # post
            \<and> bid (sourceBlockVersion p) \<notin> bid ` set pre
            \<and> bid (targetBlockVersion p) = bid (sourceBlockVersion p)"
    by blast
next
  fix s pre t post
  assume s: "s \<in> set src"
    and h: "tgt = pre @ t # post \<and> bid s \<notin> bid ` set pre \<and> bid t = bid s"
  have "\<forall>y\<in>set pre. \<not> bid y = bid s"
    using h by (auto simp: image_iff)
  from find_first_occurrence[OF this, of t post] h
  have f: "List.find (\<lambda>b. bid b = bid s) tgt = Some t"
    by simp
  then have p: "pairOf tgt s =
           (if versionNumber s \<noteq> versionNumber t
            then Some \<lparr>sourceBlockVersion = s, targetBlockVersion = t\<rparr> else None)"
    by (simp add: pairOf_def)
  have "t \<in> set tgt"
    using h by simp
  from bid_in_image[OF this] h show "s \<notin> set (deletedBlocks d)"
    by (simp add: d diffLoops_deleted)
  show "\<lparr>sourceBlockVersion = s, targetBlockVersion = t\<rparr> \<in> set (updatedBlocks d)
          \<longleftrightarrow> versionNumber s \<noteq> versionNumber t"
  proof
    assume "\<lparr>sourceBlockVersion = s, targetBlockVersion = t\<rparr> \<in> set (updatedBlocks d)"
    then obtain s' where "pairOf tgt s' = Some \<lparr>sourceBlockVersion = s, targetBlockVersion = t\<rparr>"
      by (auto simp: d updated_iff)
    from pairOf_Some[OF this] show "versionNumber s \<noteq> versionNumber t"
      by simp
  next
    assume "versionNumber s \<noteq> versionNumber t"
    with p s show "\<lparr>sourceBlockVersion = s, targetBlockVersion = t\<rparr> \<in> set (updatedBlocks d)"
      by (auto simp: d updated_iff)
  qed
  fix t' assume "\<lparr>sourceBlockVersion = s, targetBlockVersion = t'\<rparr> \<in> set (updatedBlocks d)"
  then obtain s' where "pairOf tgt s' = Some \<lparr>sourceBlockVersion = s, targetBlockVersion = t'\<rparr>"
    by (auto simp: d updated_iff)
  from pairOf_Some[OF this] f show "t' = t"
    by simp
next
  assume h: "resolveSource semver_sort tbl w = Inr srv \<and> sourceBlocks bs srv = src
            \<and> findFirst tbl (resource w) (targetVersion w) = Obj r \<and> bs (rv_id r) = tgt"
  then have "compareResourceVersions semver_sort tbl bs w =
               Inr (diffLoops (sourceBlocks bs srv) (bs (rv_id r)))"
    by (simp add: compareResourceVersions_found)
  with h show "compareResourceVersions semver_sort tbl bs w = Inr d"
    by (simp add: d)
qed

theorem duplicates_first_match_witness:
  "findFirst [row ''rv1'' ''res'' ''1.0.0'' 1, row ''rv2'' ''res'' ''1.1.0'' 2] ''res'' ''1.1.0''
     = Obj (row ''rv2'' ''res'' ''1.1.0'' 2)
   \<and> compareResourceVersions (\<lambda>xs. Inr xs)
        [row ''rv1'' ''res'' ''1.0.0'' 1, row ''rv2'' ''res'' ''1.1.0'' 2]
        (\<lambda>i. if i = ''rv1'' then [item ''1'' ''a'' 1, item ''2'' ''a'' 3]
              else [item ''3'' ''a'' 2, item ''4'' ''a'' 1])
        \<lparr>sourceVersion = Some ''1.0.0'', targetVersion = ''1.1.0'', resource = ''res''\<rparr>
     = Inr (diffLoops [item ''1'' ''a'' 1, item ''2'' ''a'' 3] [item ''3'' ''a'' 2, item ''4'' ''a'' 1])
   \<and> \<lparr>sourceBlockVersion = item ''1'' ''a'' 1, targetBlockVersion = item ''3'' ''a'' 2\<rparr>
        \<in> set (updatedBlocks (diffLoops [item ''1'' ''a'' 1, item ''2'' ''a'' 3]
                                   [item ''3'' ''a'' 2, item ''4'' ''a'' 1]))
   \<and> \<lparr>sourceBlockVersion = item ''2'' ''a'' 3, targetBlockVersion = item ''3'' ''a'' 2\<rparr>
        \<in> set (updatedBlocks (diffLoops [item ''1'' ''a'' 1, item ''2'' ''a'' 3]
                                   [item ''3'' ''a'' 2, item ''4'' ''a'' 1]))
   \<and> \<lparr>sourceBlockVersion = item ''2'' ''a'' 3, targetBlockVersion = item ''4'' ''a'' 1\<rparr>
        \<notin> set (updatedBlocks (diffLoops [item ''1'' ''a'' 1, item ''2'' ''a'' 3]
                                   [item ''3'' ''a'' 2, item ''4'' ''a'' 1]))"
proof -
  let ?src = "[item ''1'' ''a'' 1, item ''2'' ''a'' 3]"
  let ?tgt = "[item ''3'' ''a'' 2, item ''4'' ''a'' 1]"
  let ?tbl = "[row ''rv1'' ''res'' ''1.0.0'' 1, row ''rv2'' ''res'' ''1.1.0'' 2]"
  let ?w = "\<lparr>sourceVersion = Some ''1.0.0'', targetVersion = ''1.1.0'', resource = ''res''\<rparr>"
  let ?bs = "\<lambda>i. if i = ''rv1'' then ?src else ?tgt"
  note T = duplicates_first_match [where d = "diffLoops ?src ?tgt" and src = ?src and tgt = ?tgt
      and tbl = ?tbl and w = ?w and r = "row ''rv2'' ''res'' ''1.1.0'' 2" and bs = ?bs
      and semver_sort = "\<lambda>xs. Inr xs" and srv = "Obj (row ''rv1'' ''res'' ''1.0.0'' 1)",
      OF refl]
  note S = T [THEN conjunct2, THEN conjunct1, rule_format]
  have f: "findFirst ?tbl ''res'' ''1.1.0'' = Obj (row ''rv2'' ''res'' ''1.1.0'' 2)"
    by (simp add: findFirst_def row_def)
  have c: "compareResourceVersions (\<lambda>xs. Inr xs) ?tbl ?bs ?w = Inr (diffLoops ?src ?tgt)"
    using T [THEN conjunct2, THEN conjunct2] f
    by (simp add: row_def resolveSource_def sourceBlocks_def findFirst_def)
  have u1: "\<lparr>sourceBlockVersion = item ''1'' ''a'' 1, targetBlockVersion = item ''3'' ''a'' 2\<rparr>
        \<in> set (updatedBlocks (diffLoops ?src ?tgt))"
    using S [of "item ''1'' ''a'' 1" "[]" "item ''3'' ''a'' 2" "[item ''4'' ''a'' 1]"]
    by (simp add: item_def)
  have u2: "\<lparr>sourceBlockVersion = item ''2'' ''a'' 3, targetBlockVersion = item ''3'' ''a'' 2\<rparr>
        \<in> set (updatedBlocks (diffLoops ?src ?tgt))"
    using S [of "item ''2'' ''a'' 3" "[]" "item ''3'' ''a'' 2" "[item ''4'' ''a'' 1]"]
    by (simp add: item_def)
  have u3: "\<lparr>sourceBlockVersion = item ''2'' ''a'' 3, targetBlockVersion = item ''4'' ''a'' 1\<rparr>
        \<notin> set (updatedBlocks (diffLoops ?src ?tgt))"
    using S [of "item ''2'' ''a'' 3" "[]" "item ''3'' ''a'' 2" "[item ''4'' ''a'' 1]"]
    by (auto simp add: item_def)
  from f c u1 u2 u3 show ?thesis
    by (intro conjI)
qed

section \<open>When the comparison raises\<close>

text \<open>
  C10. The versions of a resource are checked by \<open>validateVersion\<close> when they are
  created, so that the sort of line 458 returns on them. Where it does, or where the
  source version is given and the sort is not called: \<open>compareResourceVersions\<close> raises
  exactly when the table has no resource version of the resource with the target
  version, and the error is the one with the message of line 508. When the source
  version is not given (or is the empty string) and \<open>getPreviousVersion\<close> finds no
  previous version, the comparison of a target that is found does not raise: the source
  collection is empty and every block version of the target is reported as created.
\<close>

theorem raises_iff_target_missing:
  assumes ok: "(\<exists>sv. sourceVersion w = Some sv \<and> sv \<noteq> [])
     \<or> (\<exists>sortedVersions.
           semver_sort (map version (findMany tbl (resource w))) = Inr sortedVersions)"
  shows "((\<exists>e. compareResourceVersions semver_sort tbl bs w = Inl e) \<longleftrightarrow>
      \<not> (\<exists>r\<in>set tbl. resourceId r = resource w \<and> version r = targetVersion w))
   \<and> (\<not> (\<exists>r\<in>set tbl. resourceId r = resource w \<and> version r = targetVersion w) \<longrightarrow>
        compareResourceVersions semver_sort tbl bs w =
          Inl (Error (notFoundMessage (targetVersion w) (resource w))))
   \<and> ((sourceVersion w = None \<or> sourceVersion w = Some [])
        \<and> getPreviousVersion semver_sort tbl (resource w) (targetVersion w)
            \<in> {Inr Null, Inr Undefined}
        \<and> findFirst tbl (resource w) (targetVersion w) = Obj t \<longrightarrow>
        compareResourceVersions semver_sort tbl bs w =
          Inr \<lparr>updatedBlocks = [], createdBlocks = bs (rv_id t), deletedBlocks = []\<rparr>)"
proof -
  obtain srv where srv: "resolveSource semver_sort tbl w = Inr srv"
  proof (cases "\<exists>sv. sourceVersion w = Some sv \<and> sv \<noteq> []")
    case True
    then obtain sv where "sourceVersion w = Some sv" "sv \<noteq> []"
      by blast
    from resolveSource_given[OF this] that show ?thesis
      by blast
  next
    case False
    then have n: "sourceVersion w = None \<or> sourceVersion w = Some []"
      by (cases "sourceVersion w") auto
    from False ok obtain sortedVersions
      where sorted: "semver_sort (map version (findMany tbl (resource w))) = Inr sortedVersions"
      by blast
    from getPreviousVersion_returns[where semver_sort = semver_sort and tbl = tbl
        and rid = "resource w" and v = "targetVersion w", OF sorted] obtain x
      where "getPreviousVersion semver_sort tbl (resource w) (targetVersion w) = Inr x"
      by blast
    with resolveSource_previous[OF n, of semver_sort tbl] that show ?thesis
      by simp
  qed
  have missing: "compareResourceVersions semver_sort tbl bs w =
          Inl (Error (notFoundMessage (targetVersion w) (resource w)))"
    if "\<not> (\<exists>r\<in>set tbl. resourceId r = resource w \<and> version r = targetVersion w)"
    by (rule compareResourceVersions_missing[OF srv findFirst_cases(2)[OF that]])
  have iff: "(\<exists>e. compareResourceVersions semver_sort tbl bs w = Inl e) \<longleftrightarrow>
      \<not> (\<exists>r\<in>set tbl. resourceId r = resource w \<and> version r = targetVersion w)"
  proof (cases "\<exists>r\<in>set tbl. resourceId r = resource w \<and> version r = targetVersion w")
    case True
    from findFirst_cases(1)[OF True] obtain r
      where "findFirst tbl (resource w) (targetVersion w) = Obj r" by blast
    from compareResourceVersions_found[OF srv this] True show ?thesis
      by simp
  next
    case False
    from missing[OF False] False show ?thesis
      by simp
  qed
  have empty: "compareResourceVersions semver_sort tbl bs w =
          Inr \<lparr>updatedBlocks = [], createdBlocks = bs (rv_id t), deletedBlocks = []\<rparr>"
    if h: "(sourceVersion w = None \<or> sourceVersion w = Some [])
        \<and> getPreviousVersion semver_sort tbl (resource w) (targetVersion w)
            \<in> {Inr Null, Inr Undefined}
        \<and> findFirst tbl (resource w) (targetVersion w) = Obj t"
  proof -
    from h have "resolveSource semver_sort tbl w =
               getPreviousVersion semver_sort tbl (resource w) (targetVersion w)"
      by (simp add: resolveSource_previous)
    with h srv have "srv = Null \<or> srv = Undefined"
      by auto
    then have "sourceBlocks bs srv = []"
      by (auto simp: sourceBlocks_def)
    with compareResourceVersions_found[OF srv, of t bs] h show ?thesis
      by (simp add: diffLoops_eq)
  qed
  from iff missing empty show ?thesis
    by blast
qed

theorem raises_iff_target_missing_witness:
  "(\<lambda>xs. Inr xs) (map version (findMany [row ''rv1'' ''res'' ''1.0.0'' 1] ''res''))
     = (Inr [''1.0.0''] :: error + string list)
   \<and> getPreviousVersion (\<lambda>xs. Inr xs) [row ''rv1'' ''res'' ''1.0.0'' 1] ''res'' ''1.0.0''
     \<in> {Inr Null, Inr Undefined}
   \<and> findFirst [row ''rv1'' ''res'' ''1.0.0'' 1] ''res'' ''1.0.0'' = Obj (row ''rv1'' ''res'' ''1.0.0'' 1)
   \<and> compareResourceVersions (\<lambda>xs. Inr xs) [row ''rv1'' ''res'' ''1.0.0'' 1]
        (\<lambda>i. [item ''1'' ''a'' 1, item ''2'' ''b'' 1])
        \<lparr>sourceVersion = None, targetVersion = ''1.0.0'', resource = ''res''\<rparr>
     = Inr \<lparr>updatedBlocks = [], createdBlocks = [item ''1'' ''a'' 1, item ''2'' ''b'' 1],
            deletedBlocks = []\<rparr>
   \<and> \<not> (\<exists>r\<in>set [row ''rv1'' ''res'' ''1.0.0'' 1]. resourceId r = ''res'' \<and> version r = ''2.0.0'')
   \<and> compareResourceVersions (\<lambda>xs. Inr xs) [row ''rv1'' ''res'' ''1.0.0'' 1]
        (\<lambda>i. [item ''1'' ''a'' 1, item ''2'' ''b'' 1])
        \<lparr>sourceVersion = None, targetVersion = ''2.0.0'', resource = ''res''\<rparr>
     = Inl (Error ''Resource version with version 2.0.0 not found for resource res'')"
  using raises_iff_target_missing [where semver_sort = "\<lambda>xs. Inr xs"
          and tbl = "[row ''rv1'' ''res'' ''1.0.0'' 1]"
          and bs = "\<lambda>i. [item ''1'' ''a'' 1, item ''2'' ''b'' 1]"
          and w = "\<lparr>sourceVersion = None, targetVersion = ''1.0.0'', resource = ''res''\<rparr>"
          and t = "row ''rv1'' ''res'' ''1.0.0'' 1"]
        raises_iff_target_missing [where semver_sort = "\<lambda>xs. Inr xs"
          and tbl = "[row ''rv1'' ''res'' ''1.0.0'' 1]"
          and bs = "\<lambda>i. [item ''1'' ''a'' 1, item ''2'' ''b'' 1]"
          and w = "\<lparr>sourceVersion = None, targetVersion = ''2.0.0'', resource = ''res''\<rparr>"
          and t = "row ''rv1'' ''res'' ''1.0.0'' 1"]
  by (simp add: getPreviousVersion_def findMany_def findFirst_def row_def notFoundMessage_def)

end
